theory Spec2Isabelle
  imports Complex_Main "HOL-Library.Sublist" "HOL-Library.Word"
begin

section \<open>Values of the JavaScript runtime\<close>

text \<open>
  A value produced by \<^verbatim>\<open>JSON.parse\<close>, together with \<^verbatim>\<open>undefined\<close>, which a property
  read of a missing key yields. An object is its list of own properties; numbers are
  exact rationals (rounding of doubles is outside this development).
\<close>

datatype jsval =
    JUndefined
  | JNull
  | JBool bool
  | JNum rat
  | JStr string
  | JArr "jsval list"
  | JObj "(string \<times> jsval) list"

text \<open>
  What a \<^verbatim>\<open>catch (e)\<close> clause receives: an \<^verbatim>\<open>Error\<close> with its name and its message,
  or any other thrown value, kept as its two renderings, by \<^verbatim>\<open>JSON.stringify\<close> and by
  \<^verbatim>\<open>String\<close>.
\<close>

datatype thrown = JsError string string | JsThrown string string

text \<open>\<^verbatim>\<open>e instanceof Error ? e.message : JSON.stringify(e)\<close>\<close>

fun errorText :: "thrown \<Rightarrow> string" where
  "errorText (JsError nm msg) = msg"
| "errorText (JsThrown json str) = json"

text \<open>
  The template \<^verbatim>\<open>`${e}`\<close>, that is \<^verbatim>\<open>String(e)\<close>: for an \<^verbatim>\<open>Error\<close> the name and the message
  joined by a colon, or the one of them that is not empty.
\<close>

fun templateText :: "thrown \<Rightarrow> string" where
  "templateText (JsError nm msg) =
     (if nm = [] then msg else if msg = [] then nm else nm @ '': '' @ msg)"
| "templateText (JsThrown json str) = str"

text \<open>
  The names every ordinary object inherits from \<^verbatim>\<open>Object.prototype\<close>. The operator
  \<^verbatim>\<open>in\<close> and a property read both follow the prototype chain, so they see these names
  on an object created by \<^verbatim>\<open>{}\<close> although they are not keys of it.
\<close>

definition object_prototype_keys :: "string list" where
  "object_prototype_keys =
     [''constructor'', ''hasOwnProperty'', ''isPrototypeOf'', ''propertyIsEnumerable'',
      ''toLocaleString'', ''toString'', ''valueOf'', ''__defineGetter__'',
      ''__defineSetter__'', ''__lookupGetter__'', ''__lookupSetter__'', ''__proto__'']"

section \<open>The parsed trace and its insights\<close>

text \<open>The LCP event: \<^verbatim>\<open>lcpEvent?.args?.data?.nodeId\<close> reads through three optional levels.\<close>

datatype lcp_event_data = LcpEventData (nodeId: "int option")
datatype lcp_event_args = LcpEventArgs (args_data: "lcp_event_data option")
datatype lcp_event = LcpEvent (event_args: "lcp_event_args option")

text \<open>A subpart of the LCP breakdown: a window of the trace with its length in microseconds.\<close>

datatype subpart = Subpart (range_micro: rat)

record subparts =
  ttfb :: "subpart option"
  loadDelay :: "subpart option"
  loadDuration :: "subpart option"
  renderDelay :: "subpart option"

text \<open>
  An insight model as the derivations read it: the three fields of the LCP breakdown, each
  possibly missing, and the insight's key, which stands for everything else the formatter
  prints.
\<close>

record insight_model =
  insightKey :: string
  lcpEvent :: "lcp_event option"
  subparts :: "subparts option"
  ins_lcpMs :: "rat option"

text \<open>
  An insight set. Its \<^verbatim>\<open>model\<close> is an ordinary object from insight names to insight
  models: the list holds its own properties, a value \<open>None\<close> being a falsy one
  (\<^verbatim>\<open>undefined\<close> or \<^verbatim>\<open>null\<close>).
\<close>

record insight_set =
  model :: "(string \<times> insight_model option) list"

text \<open>Screenshots of a layout shift: the arguments hold a snapshot or a data URI.\<close>

record screenshot_args =
  snapshot :: "string option"
  dataUri :: "string option"

datatype screenshot_event = ScreenshotEvent (sargs: screenshot_args)

record shift_screenshots =
  screenshots_before :: "screenshot_event option"
  screenshots_after :: "screenshot_event option"

datatype shift_data = ShiftData (weighted_score_delta: "rat option")

record shift_event =
  event_ts :: rat
  shift_args_data :: "shift_data option"
  screenshots :: shift_screenshots

datatype cluster = Cluster (events: "shift_event list")

text \<open>
  The parsed trace: the insight sets the engine computed (a \<^verbatim>\<open>Map\<close> in insertion order,
  or absent), the layout shift clusters, and a label standing for the rest of the model.
\<close>

record parsed_trace =
  pt_insights :: "(string \<times> insight_set) list option"
  pt_clusters :: "cluster list"
  pt_label :: string

record TraceResult =
  parsedTrace :: parsed_trace
  insights :: "(string \<times> insight_set) list option"

text \<open>\<^verbatim>\<open>Map.prototype.get\<close>: the value stored under the key, if any.\<close>

definition map_get :: "(string \<times> 'a) list \<Rightarrow> string \<Rightarrow> 'a option" where
  "map_get m k = map_of m k"

section \<open>The LCP breakdown\<close>

record LCPPhase =
  name :: string
  durationMs :: rat

record LCPBreakdownData =
  lcpMs :: rat
  backendNodeId :: "int option"
  phases :: "LCPPhase list"

definition toMs :: "rat \<Rightarrow> rat" where
  "toMs micro = micro / 1000"

text \<open>\<^verbatim>\<open>if (s.x) { phases.push({name, durationMs: toMs(s.x.range)}) }\<close>\<close>

definition push_phase :: "string \<Rightarrow> subpart option \<Rightarrow> LCPPhase list \<Rightarrow> LCPPhase list" where
  "push_phase nm sp ps =
     (case sp of
        None \<Rightarrow> ps
      | Some x \<Rightarrow> ps @ [\<lparr>name = nm, durationMs = toMs (range_micro x)\<rparr>])"

text \<open>\<^verbatim>\<open>insightSet.model.LCPBreakdown\<close>: an own property, or \<^verbatim>\<open>undefined\<close>.\<close>

definition model_LCPBreakdown :: "insight_set \<Rightarrow> insight_model option" where
  "model_LCPBreakdown s =
     (case map_of (model s) ''LCPBreakdown'' of None \<Rightarrow> None | Some v \<Rightarrow> v)"

definition getLCPBreakdownData :: "TraceResult \<Rightarrow> string \<Rightarrow> LCPBreakdownData option" where
  "getLCPBreakdownData result insightSetId =
     (case insights result of
        None \<Rightarrow> None
      | Some m \<Rightarrow>
         (case map_get m insightSetId of
            None \<Rightarrow> None
          | Some insightSet \<Rightarrow>
             (case model_LCPBreakdown insightSet of
                None \<Rightarrow> None
              | Some lcpInsight \<Rightarrow>
                 (let nid =
                        (case lcpEvent lcpInsight of
                           None \<Rightarrow> None
                         | Some ev \<Rightarrow>
                            (case event_args ev of
                               None \<Rightarrow> None
                             | Some a \<Rightarrow>
                                (case args_data a of None \<Rightarrow> None | Some d \<Rightarrow> nodeId d)));
                      ps =
                        (case subparts lcpInsight of
                           None \<Rightarrow> []
                         | Some s \<Rightarrow>
                            push_phase ''Render Delay'' (renderDelay s)
                              (push_phase ''Load Duration'' (loadDuration s)
                                (push_phase ''Load Delay'' (loadDelay s)
                                  (push_phase ''TTFB'' (ttfb s) []))))
                  in Some \<lparr>lcpMs = (case ins_lcpMs lcpInsight of None \<Rightarrow> 0 | Some v \<Rightarrow> v),
                            backendNodeId = nid,
                            phases = ps\<rparr>))))"

text \<open>
  The phase list in the words of the specification: the four subparts in their fixed
  order, each one that is present giving a phase of its range divided by 1000, each one
  that is absent giving nothing.
\<close>

definition spec_phases :: "subparts \<Rightarrow> LCPPhase list" where
  "spec_phases s =
     List.map_filter
       (\<lambda>(nm, sp). map_option (\<lambda>x. \<lparr>name = nm, durationMs = range_micro x / 1000\<rparr>) sp)
       [(''TTFB'', ttfb s), (''Load Delay'', loadDelay s),
        (''Load Duration'', loadDuration s), (''Render Delay'', renderDelay s)]"

section \<open>Layout shifts\<close>

record LayoutShiftImages =
  before :: "string option"
  after :: "string option"

record LayoutShiftData =
  ts :: rat
  score :: rat
  images :: LayoutShiftImages

text \<open>\<^verbatim>\<open>'snapshot' in args ? args.snapshot : args.dataUri\<close>, for a screenshot that is there.\<close>

definition screenshot_image :: "screenshot_event option \<Rightarrow> string option" where
  "screenshot_image sc =
     (case sc of
        None \<Rightarrow> None
      | Some e \<Rightarrow>
         (case snapshot (sargs e) of
            Some s \<Rightarrow> Some s
          | None \<Rightarrow> dataUri (sargs e)))"

text \<open>The body of the inner loop: the entry pushed for one event.\<close>

definition layoutShiftOf :: "shift_event \<Rightarrow> LayoutShiftData" where
  "layoutShiftOf event =
     \<lparr>ts = event_ts event,
      score = (case shift_args_data event of
                 None \<Rightarrow> 0
               | Some d \<Rightarrow> (case weighted_score_delta d of None \<Rightarrow> 0 | Some v \<Rightarrow> v)),
      images = \<lparr>before = screenshot_image (screenshots_before (screenshots event)),
                after = screenshot_image (screenshots_after (screenshots event))\<rparr>\<rparr>"

text \<open>The two nested \<^verbatim>\<open>for ... of\<close> loops, pushing onto \<^verbatim>\<open>layoutShifts\<close>.\<close>

fun push_events :: "shift_event list \<Rightarrow> LayoutShiftData list \<Rightarrow> LayoutShiftData list" where
  "push_events [] layoutShifts = layoutShifts"
| "push_events (event # rest) layoutShifts =
     push_events rest (layoutShifts @ [layoutShiftOf event])"

fun push_clusters :: "cluster list \<Rightarrow> LayoutShiftData list \<Rightarrow> LayoutShiftData list" where
  "push_clusters [] layoutShifts = layoutShifts"
| "push_clusters (c # rest) layoutShifts =
     push_clusters rest (push_events (events c) layoutShifts)"

definition getLayoutShifts :: "TraceResult \<Rightarrow> LayoutShiftData list" where
  "getLayoutShifts result = push_clusters (pt_clusters (parsedTrace result)) []"

definition getLayoutShiftImages :: "TraceResult \<Rightarrow> rat \<Rightarrow> LayoutShiftImages option" where
  "getLayoutShiftImages result timestamp =
     (case find (\<lambda>s. ts s = timestamp) (getLayoutShifts result) of
        None \<Rightarrow> None
      | Some match \<Rightarrow> Some (images match))"

section \<open>Searching the accessibility tree\<close>

text \<open>
  A node of the accessibility snapshot: the backend node identifier it may expose at run
  time, its name (standing for its other fields), and its children, if it has the field.
\<close>

datatype axnode =
  AXNode (ax_backendNodeId: "int option") (ax_name: string) (ax_children: "axnode list option")

fun findAXNode :: "axnode \<Rightarrow> int \<Rightarrow> axnode option"
  and findAXNode_children :: "axnode list \<Rightarrow> int \<Rightarrow> axnode option" where
  "findAXNode (AXNode i n ch) target =
     (if i = Some target then Some (AXNode i n ch)
      else (case ch of
              None \<Rightarrow> None
            | Some children \<Rightarrow> findAXNode_children children target))"
| "findAXNode_children [] target = None"
| "findAXNode_children (child # rest) target =
     (case findAXNode child target of
        Some found \<Rightarrow> Some found
      | None \<Rightarrow> findAXNode_children rest target)"

text \<open>
  The same search, also returning the nodes whose identifier it compared, in the order it
  compared them.
\<close>

fun findAXNode_visit :: "axnode \<Rightarrow> int \<Rightarrow> axnode option \<times> axnode list"
  and findAXNode_children_visit :: "axnode list \<Rightarrow> int \<Rightarrow> axnode option \<times> axnode list" where
  "findAXNode_visit (AXNode i n ch) target =
     (if i = Some target then (Some (AXNode i n ch), [AXNode i n ch])
      else (case ch of
              None \<Rightarrow> (None, [AXNode i n ch])
            | Some children \<Rightarrow>
               (case findAXNode_children_visit children target of
                  (r, vs) \<Rightarrow> (r, AXNode i n ch # vs))))"
| "findAXNode_children_visit [] target = (None, [])"
| "findAXNode_children_visit (child # rest) target =
     (case findAXNode_visit child target of
        (Some found, vs) \<Rightarrow> (Some found, vs)
      | (None, vs) \<Rightarrow>
         (case findAXNode_children_visit rest target of
            (r, ws) \<Rightarrow> (r, vs @ ws)))"

text \<open>The nodes of a tree in pre-order: a parent before its children, children in order.\<close>

fun preorder :: "axnode \<Rightarrow> axnode list"
  and preorder_children :: "axnode list \<Rightarrow> axnode list" where
  "preorder (AXNode i n ch) =
     AXNode i n ch # (case ch of None \<Rightarrow> [] | Some children \<Rightarrow> preorder_children children)"
| "preorder_children [] = []"
| "preorder_children (child # rest) = preorder child @ preorder_children rest"

section \<open>The collaborators and the state of a session\<close>

type_synonym bytes = "8 word list"

text \<open>A command sent to the browser, and a call made on the trace engine.\<close>

datatype command =
    Goto string "string list"
  | TracingStart "string list"
  | TracingStop
  | AccessibilitySnapshot
  | ElementHandle axnode
  | Screenshot nat
  | Dispose nat

datatype engine_call = ResetProcessor | Parse jsval | ParsedTrace

text \<open>What \<^verbatim>\<open>matchingInsight\<close> can hold when it is truthy: a model stored in the insight
  set, or a member of \<^verbatim>\<open>Object.prototype\<close> found under an inherited name.\<close>

datatype matched = OwnInsight insight_model | Inherited string

text \<open>
  The collaborators outside the repository, as parameters: the browser (over a page state
  \<open>'p\<close>), the trace engine (over an engine state \<open>'e\<close>), the runtime's decoder and JSON
  parser, compression, and the formatters. A call that can throw or reject returns the
  thrown value; a call on the page or the engine also returns the state it leaves.
\<close>

record ('p, 'e) env =
  page_url :: "'p \<Rightarrow> string"
  page_goto :: "'p \<Rightarrow> string \<Rightarrow> string list \<Rightarrow> thrown option \<times> 'p"
  tracing_start :: "'p \<Rightarrow> string list \<Rightarrow> thrown option \<times> 'p"
  tracing_stop :: "'p \<Rightarrow> (thrown + bytes option) \<times> 'p"
  accessibility_snapshot :: "'p \<Rightarrow> (thrown + axnode option) \<times> 'p"
  node_elementHandle :: "'p \<Rightarrow> axnode \<Rightarrow> (thrown + nat option) \<times> 'p"
  handle_screenshot :: "'p \<Rightarrow> nat \<Rightarrow> (thrown + bytes) \<times> 'p"
  handle_dispose :: "'p \<Rightarrow> nat \<Rightarrow> thrown option \<times> 'p"
  zlib_gzip :: "bytes \<Rightarrow> thrown + bytes"
  context_saveFile :: "bytes \<Rightarrow> string \<Rightarrow> thrown + string"
  base64 :: "bytes \<Rightarrow> string"
  text_decode :: "bytes \<Rightarrow> string"
  json_parse :: "string \<Rightarrow> thrown + jsval"
  engine_resetProcessor :: "'e \<Rightarrow> 'e"
  engine_parse :: "'e \<Rightarrow> jsval \<Rightarrow> thrown option \<times> 'e"
  engine_parsedTrace :: "'e \<Rightarrow> thrown + parsed_trace option"
  formatTraceSummary :: "parsed_trace \<Rightarrow> thrown + string"
  formatInsight :: "parsed_trace \<Rightarrow> matched \<Rightarrow> thrown + string"
  callFrameDataFormatDescription :: string
  networkDataFormatDescription :: string

text \<open>
  The state a tool call works on: the context (recording flag, history of recordings,
  selected page), the module's trace engine, and what has been observed from outside:
  commands sent to the browser, calls made on the engine, lines appended to the response,
  lines logged.
\<close>

record ('p, 'e) world =
  isRunningPerformanceTrace :: bool
  recordedTraces :: "TraceResult list"
  selectedPage :: 'p
  engine :: 'e
  issued :: "command list"
  engineCalls :: "engine_call list"
  responseLines :: "string list"
  logged :: "string list"

text \<open>Modelled from the spec: the context's setter of the recording flag, whose source is
  not among the files.\<close>

definition setIsRunningPerformanceTrace :: "bool \<Rightarrow> ('p, 'e) world \<Rightarrow> ('p, 'e) world" where
  "setIsRunningPerformanceTrace b w = w\<lparr>isRunningPerformanceTrace := b\<rparr>"

text \<open>Modelled from the spec: the context's \<^verbatim>\<open>storeTraceRecording\<close>, which appends to an
  ordered history, the most recent recording last.\<close>

definition storeTraceRecording :: "TraceResult \<Rightarrow> ('p, 'e) world \<Rightarrow> ('p, 'e) world" where
  "storeTraceRecording r w = w\<lparr>recordedTraces := recordedTraces w @ [r]\<rparr>"

text \<open>Modelled from the spec: the response's \<^verbatim>\<open>appendResponseLine\<close>, a line-oriented
  textual response.\<close>

definition appendResponseLine :: "string \<Rightarrow> ('p, 'e) world \<Rightarrow> ('p, 'e) world" where
  "appendResponseLine l w = w\<lparr>responseLines := responseLines w @ [l]\<rparr>"

text \<open>Modelled from the spec: the logger, which records a line and does nothing else.\<close>

definition logger :: "string \<Rightarrow> ('p, 'e) world \<Rightarrow> ('p, 'e) world" where
  "logger l w = w\<lparr>logged := logged w @ [l]\<rparr>"

text \<open>The calls on the page and on the engine: each records itself and runs the collaborator.\<close>

definition goto :: "('p, 'e) env \<Rightarrow> string \<Rightarrow> string list \<Rightarrow> ('p, 'e) world
    \<Rightarrow> thrown option \<times> ('p, 'e) world" where
  "goto env url waitUntil w =
     (case page_goto env (selectedPage w) url waitUntil of
        (r, p) \<Rightarrow> (r, w\<lparr>selectedPage := p, issued := issued w @ [Goto url waitUntil]\<rparr>))"

definition tracingStart :: "('p, 'e) env \<Rightarrow> string list \<Rightarrow> ('p, 'e) world
    \<Rightarrow> thrown option \<times> ('p, 'e) world" where
  "tracingStart env cats w =
     (case tracing_start env (selectedPage w) cats of
        (r, p) \<Rightarrow> (r, w\<lparr>selectedPage := p, issued := issued w @ [TracingStart cats]\<rparr>))"

definition tracingStop :: "('p, 'e) env \<Rightarrow> ('p, 'e) world
    \<Rightarrow> (thrown + bytes option) \<times> ('p, 'e) world" where
  "tracingStop env w =
     (case tracing_stop env (selectedPage w) of
        (r, p) \<Rightarrow> (r, w\<lparr>selectedPage := p, issued := issued w @ [TracingStop]\<rparr>))"

definition accessibilitySnapshot :: "('p, 'e) env \<Rightarrow> ('p, 'e) world
    \<Rightarrow> (thrown + axnode option) \<times> ('p, 'e) world" where
  "accessibilitySnapshot env w =
     (case accessibility_snapshot env (selectedPage w) of
        (r, p) \<Rightarrow> (r, w\<lparr>selectedPage := p, issued := issued w @ [AccessibilitySnapshot]\<rparr>))"

definition elementHandle :: "('p, 'e) env \<Rightarrow> axnode \<Rightarrow> ('p, 'e) world
    \<Rightarrow> (thrown + nat option) \<times> ('p, 'e) world" where
  "elementHandle env node w =
     (case node_elementHandle env (selectedPage w) node of
        (r, p) \<Rightarrow> (r, w\<lparr>selectedPage := p, issued := issued w @ [ElementHandle node]\<rparr>))"

definition handleScreenshot :: "('p, 'e) env \<Rightarrow> nat \<Rightarrow> ('p, 'e) world
    \<Rightarrow> (thrown + bytes) \<times> ('p, 'e) world" where
  "handleScreenshot env h w =
     (case handle_screenshot env (selectedPage w) h of
        (r, p) \<Rightarrow> (r, w\<lparr>selectedPage := p, issued := issued w @ [Screenshot h]\<rparr>))"

definition handleDispose :: "('p, 'e) env \<Rightarrow> nat \<Rightarrow> ('p, 'e) world
    \<Rightarrow> thrown option \<times> ('p, 'e) world" where
  "handleDispose env h w =
     (case handle_dispose env (selectedPage w) h of
        (r, p) \<Rightarrow> (r, w\<lparr>selectedPage := p, issued := issued w @ [Dispose h]\<rparr>))"

definition resetProcessor :: "('p, 'e) env \<Rightarrow> ('p, 'e) world \<Rightarrow> ('p, 'e) world" where
  "resetProcessor env w =
     w\<lparr>engine := engine_resetProcessor env (engine w),
       engineCalls := engineCalls w @ [ResetProcessor]\<rparr>"

definition engineParse :: "('p, 'e) env \<Rightarrow> jsval \<Rightarrow> ('p, 'e) world
    \<Rightarrow> thrown option \<times> ('p, 'e) world" where
  "engineParse env evs w =
     (case engine_parse env (engine w) evs of
        (r, e) \<Rightarrow> (r, w\<lparr>engine := e, engineCalls := engineCalls w @ [Parse evs]\<rparr>))"

definition engineParsedTrace :: "('p, 'e) env \<Rightarrow> ('p, 'e) world
    \<Rightarrow> (thrown + parsed_trace option) \<times> ('p, 'e) world" where
  "engineParsedTrace env w =
     (engine_parsedTrace env (engine w), w\<lparr>engineCalls := engineCalls w @ [ParsedTrace]\<rparr>)"

section \<open>Parsing a raw trace buffer\<close>

datatype parse_result = Success TraceResult | Failure (error: string)

fun traceResultIsSuccess :: "parse_result \<Rightarrow> bool" where
  "traceResultIsSuccess (Success r) = True"
| "traceResultIsSuccess (Failure m) = False"

text \<open>
  \<^verbatim>\<open>Array.isArray(data) ? data : data.traceEvents\<close>. Reading a property of \<^verbatim>\<open>null\<close> or
  \<^verbatim>\<open>undefined\<close> throws a \<^verbatim>\<open>TypeError\<close>; on an object it gives the own property or
  \<^verbatim>\<open>undefined\<close>; on any other primitive it gives \<^verbatim>\<open>undefined\<close>.
\<close>

fun events_of :: "jsval \<Rightarrow> thrown + jsval" where
  "events_of (JArr xs) = Inr (JArr xs)"
| "events_of (JObj kvs) =
     Inr (case map_of kvs ''traceEvents'' of None \<Rightarrow> JUndefined | Some v \<Rightarrow> v)"
| "events_of JNull =
     Inl (JsError ''TypeError'' ''Cannot read properties of null (reading 'traceEvents')'')"
| "events_of JUndefined =
     Inl (JsError ''TypeError'' ''Cannot read properties of undefined (reading 'traceEvents')'')"
| "events_of v = Inr JUndefined"

text \<open>The body of the \<^verbatim>\<open>try\<close> block: the result it returns, or what it throws.\<close>

definition parse_try :: "('p, 'e) env \<Rightarrow> string \<Rightarrow> ('p, 'e) world
    \<Rightarrow> (thrown + parse_result) \<times> ('p, 'e) world" where
  "parse_try env asString w =
     (case json_parse env asString of
        Inl e \<Rightarrow> (Inl e, w)
      | Inr parsed \<Rightarrow>
         (case events_of parsed of
            Inl e \<Rightarrow> (Inl e, w)
          | Inr evs \<Rightarrow>
             (case engineParse env evs w of
                (Some e, w1) \<Rightarrow> (Inl e, w1)
              | (None, w1) \<Rightarrow>
                 (case engineParsedTrace env w1 of
                    (Inl e, w2) \<Rightarrow> (Inl e, w2)
                  | (Inr None, w2) \<Rightarrow>
                     (Inr (Failure ''No parsed trace was returned from the trace engine.''), w2)
                  | (Inr (Some pt), w2) \<Rightarrow>
                     (Inr (Success \<lparr>parsedTrace = pt, insights = pt_insights pt\<rparr>), w2)))))"

definition parseRawTraceBuffer :: "('p, 'e) env \<Rightarrow> bytes option \<Rightarrow> ('p, 'e) world
    \<Rightarrow> parse_result \<times> ('p, 'e) world" where
  "parseRawTraceBuffer env buffer w =
     (let w0 = resetProcessor env w in
      case buffer of
        None \<Rightarrow> (Failure ''No buffer was provided.'', w0)
      | Some b \<Rightarrow>
         (let asString = text_decode env b in
          if asString = [] then
            (Failure ''Decoding the trace buffer returned an empty string.'', w0)
          else
            (case parse_try env asString w0 of
               (Inr r, w1) \<Rightarrow> (r, w1)
             | (Inl e, w1) \<Rightarrow>
                (Failure (errorText e),
                 logger (''Unexpected error parsing trace: '' @ errorText e) w1))))"

definition extraFormatDescriptions :: "('p, 'e) env \<Rightarrow> string" where
  "extraFormatDescriptions env =
     ''Information on performance traces may contain main thread activity represented as call frames and network requests.''
     @ [CHR 0x0A, CHR 0x0A] @ callFrameDataFormatDescription env
     @ [CHR 0x0A, CHR 0x0A] @ networkDataFormatDescription env"

definition getTraceSummary :: "('p, 'e) env \<Rightarrow> TraceResult \<Rightarrow> thrown + string" where
  "getTraceSummary env result =
     (case formatTraceSummary env (parsedTrace result) of
        Inl e \<Rightarrow> Inl e
      | Inr summaryText \<Rightarrow>
         Inr (''## Summary of Performance trace findings:'' @ [CHR 0x0A] @ summaryText
              @ [CHR 0x0A, CHR 0x0A] @ ''## Details on call tree & network request formats:''
              @ [CHR 0x0A] @ extraFormatDescriptions env))"

section \<open>Looking up an insight\<close>

datatype InsightOutput = Output string | Error string

text \<open>\<^verbatim>\<open>insightName in insightSet.model\<close>: own and inherited names.\<close>

definition model_has :: "insight_set \<Rightarrow> string \<Rightarrow> bool" where
  "model_has s nm \<longleftrightarrow> nm \<in> set (map fst (model s)) \<or> nm \<in> set object_prototype_keys"

text \<open>\<^verbatim>\<open>insightSet.model[insightName]\<close>, \<open>None\<close> being a falsy value: an own property
  shadows an inherited one, and every member of \<^verbatim>\<open>Object.prototype\<close> is truthy.\<close>

definition model_read :: "insight_set \<Rightarrow> string \<Rightarrow> matched option" where
  "model_read s nm =
     (case map_of (model s) nm of
        Some v \<Rightarrow> map_option OwnInsight v
      | None \<Rightarrow> if nm \<in> set object_prototype_keys then Some (Inherited nm) else None)"

text \<open>\<^verbatim>\<open>insightName in insightSet.model ? insightSet.model[insightName] : null\<close>\<close>

definition matchingInsight_of :: "insight_set \<Rightarrow> string \<Rightarrow> matched option" where
  "matchingInsight_of s nm = (if model_has s nm then model_read s nm else None)"

definition getInsightOutput :: "('p, 'e) env \<Rightarrow> TraceResult \<Rightarrow> string \<Rightarrow> string
    \<Rightarrow> thrown + InsightOutput" where
  "getInsightOutput env result insightSetId insightName =
     (case insights result of
        None \<Rightarrow> Inr (Error ''No Performance insights are available for this trace.'')
      | Some m \<Rightarrow>
         (case map_get m insightSetId of
            None \<Rightarrow>
              Inr (Error (''No Performance Insights for the given insight set id. Only use ids given in the ''
                     @ [CHR 0x22] @ ''Available insight sets'' @ [CHR 0x22] @ '' list.''))
          | Some insightSet \<Rightarrow>
             (case matchingInsight_of insightSet insightName of
                None \<Rightarrow>
                  Inr (Error (''No Insight with the name '' @ insightName
                         @ '' found. Double check the name you provided is accurate and try again.''))
              | Some matchingInsight \<Rightarrow>
                 (case formatInsight env (parsedTrace result) matchingInsight of
                    Inl e \<Rightarrow> Inl e
                  | Inr out \<Rightarrow> Inr (Output out)))))"

section \<open>Selecting the LCP breakdown and taking the element's screenshot\<close>

record LCPDataWithScreenshot = LCPBreakdownData +
  screenshot :: "string option"

text \<open>
  The loop \<^verbatim>\<open>for (let i = ids.length - 1; i >= 0; i--)\<close>: the second argument is \<open>i + 1\<close>,
  so that \<open>0\<close> is the exit of the loop.
\<close>

fun scanInsightSetIds :: "TraceResult \<Rightarrow> string list \<Rightarrow> nat \<Rightarrow> string option" where
  "scanInsightSetIds lastRecording ids 0 = None"
| "scanInsightSetIds lastRecording ids (Suc i) =
     (let sid = ids ! i in
      case getLCPBreakdownData lastRecording sid of
        None \<Rightarrow> scanInsightSetIds lastRecording ids i
      | Some lcpData \<Rightarrow>
         if lcpMs lcpData > 0 then Some sid
         else scanInsightSetIds lastRecording ids i)"

definition finalInsightSetId :: "TraceResult \<Rightarrow> string option" where
  "finalInsightSetId lastRecording =
     (case insights lastRecording of
        None \<Rightarrow> None
      | Some m \<Rightarrow> scanInsightSetIds lastRecording (map fst m) (length (map fst m)))"

text \<open>
  The body of the \<^verbatim>\<open>try\<close> block around the screenshot. It returns the value of the
  variable \<^verbatim>\<open>screenshot\<close> at the end of the block or at the throw, and what was thrown.
\<close>

definition screenshot_try :: "('p, 'e) env \<Rightarrow> int \<Rightarrow> ('p, 'e) world
    \<Rightarrow> (string option \<times> thrown option) \<times> ('p, 'e) world" where
  "screenshot_try env nid w =
     (case accessibilitySnapshot env w of
        (Inl e, w1) \<Rightarrow> ((None, Some e), w1)
      | (Inr None, w1) \<Rightarrow> ((None, None), w1)
      | (Inr (Some rootNode), w1) \<Rightarrow>
         (case findAXNode rootNode nid of
            None \<Rightarrow> ((None, None), w1)
          | Some node \<Rightarrow>
             (case elementHandle env node w1 of
                (Inl e, w2) \<Rightarrow> ((None, Some e), w2)
              | (Inr None, w2) \<Rightarrow> ((None, None), w2)
              | (Inr (Some h), w2) \<Rightarrow>
                 (case handleScreenshot env h w2 of
                    (Inl e, w3) \<Rightarrow> ((None, Some e), w3)
                  | (Inr screenshotBuffer, w3) \<Rightarrow>
                     (case handleDispose env h w3 of
                        (r, w4) \<Rightarrow> ((Some (base64 env screenshotBuffer), r), w4))))))"

definition getLCPDataWithScreenshot :: "('p, 'e) env \<Rightarrow> TraceResult \<Rightarrow> ('p, 'e) world
    \<Rightarrow> LCPDataWithScreenshot option \<times> ('p, 'e) world" where
  "getLCPDataWithScreenshot env lastRecording w =
     (case finalInsightSetId lastRecording of
        None \<Rightarrow> (None, w)
      | Some sid \<Rightarrow>
         if sid = [] then (None, w)
         else
          (case getLCPBreakdownData lastRecording sid of
             None \<Rightarrow> (None, w)
           | Some lcpData \<Rightarrow>
              (case (case backendNodeId lcpData of
                       None \<Rightarrow> (None, w)
                     | Some nid \<Rightarrow>
                        if nid = 0 then (None, w)
                        else
                         (case screenshot_try env nid w of
                            ((shot, None), w1) \<Rightarrow> (shot, w1)
                          | ((shot, Some e), w1) \<Rightarrow>
                             (shot,
                              logger (''Error highlighting/screenshotting LCP element: ''
                                      @ templateText e) w1))) of
                 (shot, w') \<Rightarrow>
                   (Some (LCPBreakdownData.extend lcpData
                            (LCPDataWithScreenshot.fields shot)), w'))))"

section \<open>Starting and stopping a recording\<close>

record request =
  reload :: bool
  autoStop :: bool
  filePath :: "string option"

definition categories :: "string list" where
  "categories =
     [''-*'', ''blink.console'', ''blink.user_timing'', ''devtools.timeline'',
      ''disabled-by-default-devtools.screenshot'',
      ''disabled-by-default-devtools.timeline'',
      ''disabled-by-default-devtools.timeline.invalidationTracking'',
      ''disabled-by-default-devtools.timeline.frame'',
      ''disabled-by-default-devtools.timeline.stack'',
      ''disabled-by-default-v8.cpu_profiler'',
      ''disabled-by-default-v8.cpu_profiler.hires'',
      ''latencyInfo'', ''loading'', ''disabled-by-default-lighthouse'',
      ''v8.execute'', ''v8'']"

text \<open>
  \<^verbatim>\<open>if (filePath && traceEventsBuffer) { ... }\<close>: the optional gzip, the save and the line
  naming the saved file. An empty path is falsy; an empty buffer is not.
\<close>

definition save_step :: "('p, 'e) env \<Rightarrow> string option \<Rightarrow> bytes option \<Rightarrow> ('p, 'e) world
    \<Rightarrow> thrown option \<times> ('p, 'e) world" where
  "save_step env fp traceEventsBuffer w =
     (case (fp, traceEventsBuffer) of
        (Some path, Some buf) \<Rightarrow>
          if path = [] then (None, w)
          else
           (case (if suffix ''.gz'' path then zlib_gzip env buf else Inr buf) of
              Inl e \<Rightarrow> (Some e, w)
            | Inr dataToWrite \<Rightarrow>
               (case context_saveFile env dataToWrite path of
                  Inl e \<Rightarrow> (Some e, w)
                | Inr filename \<Rightarrow>
                   (None,
                    appendResponseLine
                      (''The raw trace data was saved to '' @ filename @ ''.'') w)))
      | _ \<Rightarrow> (None, w))"

text \<open>The \<^verbatim>\<open>try\<close> block of the stop path: the state it leaves and what it threw, if anything.\<close>

definition stop_try :: "('p, 'e) env \<Rightarrow> string option \<Rightarrow> ('p, 'e) world
    \<Rightarrow> thrown option \<times> ('p, 'e) world" where
  "stop_try env fp w =
     (case tracingStop env w of
        (Inl e, w1) \<Rightarrow> (Some e, w1)
      | (Inr traceEventsBuffer, w1) \<Rightarrow>
         (case save_step env fp traceEventsBuffer w1 of
            (Some e, w2) \<Rightarrow> (Some e, w2)
          | (None, w2) \<Rightarrow>
             (case parseRawTraceBuffer env traceEventsBuffer w2 of
                (result, w3) \<Rightarrow>
                  (let w4 = appendResponseLine ''The performance trace has been stopped.'' w3 in
                   case result of
                     Success r \<Rightarrow>
                       (let w5 = storeTraceRecording r w4 in
                        case getTraceSummary env r of
                          Inl e \<Rightarrow> (Some e, w5)
                        | Inr traceSummaryText \<Rightarrow>
                           (None, appendResponseLine traceSummaryText w5))
                   | Failure msg \<Rightarrow>
                       (None,
                        appendResponseLine msg
                          (appendResponseLine
                             ''There was an unexpected error parsing the trace:'' w4))))))"

text \<open>The \<^verbatim>\<open>catch\<close> block of the stop path.\<close>

definition stop_catch :: "thrown \<Rightarrow> ('p, 'e) world \<Rightarrow> ('p, 'e) world" where
  "stop_catch e w =
     appendResponseLine (errorText e)
       (appendResponseLine ''An error occurred generating the response for this trace:''
          (logger (''Error stopping performance trace: '' @ errorText e) w))"

text \<open>\<^verbatim>\<open>try { ... } catch (e) { ... } finally { context.setIsRunningPerformanceTrace(false) }\<close>\<close>

definition stopTracingAndAppendOutput :: "('p, 'e) env \<Rightarrow> string option \<Rightarrow> ('p, 'e) world
    \<Rightarrow> ('p, 'e) world" where
  "stopTracingAndAppendOutput env fp w =
     setIsRunningPerformanceTrace False
       (case stop_try env fp w of
          (None, w1) \<Rightarrow> w1
        | (Some e, w1) \<Rightarrow> stop_catch e w1)"

text \<open>
  The handler of \<^verbatim>\<open>performance_start_trace\<close>. It returns what the handler throws, if
  anything, and the state it leaves. The fixed delay before an automatic stop is not
  part of the state.
\<close>

definition startTrace :: "('p, 'e) env \<Rightarrow> request \<Rightarrow> ('p, 'e) world
    \<Rightarrow> thrown option \<times> ('p, 'e) world" where
  "startTrace env req w =
     (if isRunningPerformanceTrace w then
        (None,
         appendResponseLine
           ''Error: a performance trace is already running. Use performance_stop_trace to stop it. Only one trace can be running at any given time.''
           w)
      else
       (let w1 = setIsRunningPerformanceTrace True w;
            pageUrlForTracing = page_url env (selectedPage w1)
        in case (if reload req then goto env ''about:blank'' [''networkidle0''] w1
                 else (None, w1)) of
             (Some e, w2) \<Rightarrow> (Some e, w2)
           | (None, w2) \<Rightarrow>
              (case tracingStart env categories w2 of
                 (Some e, w3) \<Rightarrow> (Some e, w3)
               | (None, w3) \<Rightarrow>
                  (case (if reload req then goto env pageUrlForTracing [''load''] w3
                         else (None, w3)) of
                     (Some e, w4) \<Rightarrow> (Some e, w4)
                   | (None, w4) \<Rightarrow>
                      if autoStop req then
                        (None, stopTracingAndAppendOutput env (filePath req) w4)
                      else
                        (None,
                         appendResponseLine
                           ''The performance trace is being recorded. Use performance_stop_trace to stop it.''
                           w4)))))"

text \<open>The handler of \<^verbatim>\<open>performance_stop_trace\<close>: nothing to do when no trace is running.\<close>

definition stopTrace :: "('p, 'e) env \<Rightarrow> string option \<Rightarrow> ('p, 'e) world \<Rightarrow> ('p, 'e) world" where
  "stopTrace env fp w =
     (if \<not> isRunningPerformanceTrace w then w
      else stopTracingAndAppendOutput env fp w)"

section \<open>Reference notions for the statements\<close>

text \<open>
  The elements of a list up to and including the first one that satisfies \<open>P\<close>: what a
  search that stops at its first match has looked at.
\<close>

definition upto_first :: "('a \<Rightarrow> bool) \<Rightarrow> 'a list \<Rightarrow> 'a list" where
  "upto_first P xs = takeWhile (\<lambda>x. \<not> P x) xs @ take 1 (dropWhile (\<lambda>x. \<not> P x) xs)"

text \<open>An insight set counts for the selection when its breakdown has a positive \<^verbatim>\<open>lcpMs\<close>.\<close>

definition has_positive_lcp :: "TraceResult \<Rightarrow> string \<Rightarrow> bool" where
  "has_positive_lcp r sid =
     (case getLCPBreakdownData r sid of None \<Rightarrow> False | Some d \<Rightarrow> lcpMs d > 0)"

text \<open>The identifiers of a recording's insight sets, in the order of the \<^verbatim>\<open>Map\<close>; none
  when the recording has no insights.\<close>

definition insight_set_ids :: "TraceResult \<Rightarrow> string list" where
  "insight_set_ids r = (case insights r of None \<Rightarrow> [] | Some m \<Rightarrow> map fst m)"

text \<open>The first command the start handler sends once it has passed its guard.\<close>

definition first_command :: "request \<Rightarrow> command" where
  "first_command req =
     (if reload req then Goto ''about:blank'' [''networkidle0''] else TracingStart categories)"

section \<open>Concrete inputs\<close>

text \<open>
  A small instance of the collaborators: the page state is its URL, the engine state is
  the event list it was last given, the decoder reads ASCII, and the JSON parser knows
  the two texts \<^verbatim>\<open>[]\<close> and \<^verbatim>\<open>{"traceEvents":[]}\<close>.
\<close>

definition demo_object_text :: string where
  "demo_object_text = ''{'' @ [CHR 0x22] @ ''traceEvents'' @ [CHR 0x22] @ '':[]}''"

definition demo_object_bytes :: bytes where
  "demo_object_bytes =
     [0x7B, 0x22, 0x74, 0x72, 0x61, 0x63, 0x65, 0x45, 0x76, 0x65, 0x6E, 0x74, 0x73, 0x22,
      0x3A, 0x5B, 0x5D, 0x7D]"

definition demo_env :: "(string, jsval option) env" where
  "demo_env =
     \<lparr>page_url = (\<lambda>p. p),
      page_goto = (\<lambda>p url waitUntil. (None, url)),
      tracing_start = (\<lambda>p cats. (None, p)),
      tracing_stop = (\<lambda>p. (Inr (Some [0x5B, 0x5D]), p)),
      accessibility_snapshot = (\<lambda>p. (Inr None, p)),
      node_elementHandle = (\<lambda>p n. (Inr None, p)),
      handle_screenshot = (\<lambda>p h. (Inr [], p)),
      handle_dispose = (\<lambda>p h. (None, p)),
      zlib_gzip = (\<lambda>b. Inr b),
      context_saveFile = (\<lambda>b path. Inr path),
      base64 = (\<lambda>b. []),
      text_decode = map (\<lambda>b. char_of (unat b)),
      json_parse =
        (\<lambda>s. if s = ''[]'' then Inr (JArr [])
             else if s = demo_object_text then Inr (JObj [(''traceEvents'', JArr [])])
             else Inl (JsError ''SyntaxError'' ''Unexpected token'')),
      engine_resetProcessor = (\<lambda>e. None),
      engine_parse = (\<lambda>e evs. (None, Some evs)),
      engine_parsedTrace =
        (\<lambda>e. Inr (map_option
                     (\<lambda>evs. \<lparr>pt_insights = None, pt_clusters = [], pt_label = ''trace''\<rparr>) e)),
      formatTraceSummary = (\<lambda>pt. Inr (pt_label pt)),
      formatInsight =
        (\<lambda>pt m. Inr (case m of OwnInsight i \<Rightarrow> insightKey i | Inherited n \<Rightarrow> n)),
      callFrameDataFormatDescription = ''call frames'',
      networkDataFormatDescription = ''network requests''\<rparr>"

text \<open>The same collaborators, with a browser whose \<^verbatim>\<open>tracing.stop()\<close> rejects.\<close>

definition demo_env_stop_fails :: "(string, jsval option) env" where
  "demo_env_stop_fails =
     demo_env\<lparr>tracing_stop := (\<lambda>p. (Inl (JsError ''Error'' ''Target closed''), p))\<rparr>"

definition demo_world :: "bool \<Rightarrow> (string, jsval option) world" where
  "demo_world running =
     \<lparr>isRunningPerformanceTrace = running,
      recordedTraces = [],
      selectedPage = ''https://example.com/'',
      engine = None,
      issued = [],
      engineCalls = [],
      responseLines = [],
      logged = []\<rparr>"

definition demo_request :: request where
  "demo_request = \<lparr>reload = True, autoStop = True, filePath = None\<rparr>"

definition demo_subparts :: subparts where
  "demo_subparts =
     \<lparr>ttfb = Some (Subpart 50000), loadDelay = Some (Subpart 20000),
      loadDuration = None, renderDelay = None\<rparr>"

definition demo_insight :: "rat option \<Rightarrow> int option \<Rightarrow> insight_model" where
  "demo_insight ms nid =
     \<lparr>insightKey = ''LCPBreakdown'',
      lcpEvent = Some (LcpEvent (Some (LcpEventArgs (Some (LcpEventData nid))))),
      subparts = Some demo_subparts,
      ins_lcpMs = ms\<rparr>"

definition demo_set :: "rat option \<Rightarrow> int option \<Rightarrow> insight_set" where
  "demo_set ms nid = \<lparr>model = [(''LCPBreakdown'', Some (demo_insight ms nid))]\<rparr>"

definition demo_result :: "(string \<times> insight_set) list option \<Rightarrow> TraceResult" where
  "demo_result sets =
     \<lparr>parsedTrace = \<lparr>pt_insights = sets, pt_clusters = [], pt_label = ''trace''\<rparr>,
      insights = sets\<rparr>"

text \<open>Two insight sets, the earlier one without an LCP time.\<close>

definition demo_sets :: "(string \<times> insight_set) list" where
  "demo_sets = [(''A'', demo_set (Some 0) None), (''B'', demo_set (Some 120) None)]"

text \<open>One insight set stored under the empty string.\<close>

definition demo_sets_empty_id :: "(string \<times> insight_set) list" where
  "demo_sets_empty_id = [([], demo_set (Some 120) None)]"

text \<open>One insight set whose LCP event names the node \<open>0\<close>.\<close>

definition demo_sets_node_zero :: "(string \<times> insight_set) list" where
  "demo_sets_node_zero = [(''NAVIGATION_0'', demo_set (Some 120) (Some 0))]"

definition demo_shift :: "rat \<Rightarrow> string \<Rightarrow> shift_event" where
  "demo_shift t img =
     \<lparr>event_ts = t,
      shift_args_data = Some (ShiftData (Some (1 / 10))),
      screenshots =
        \<lparr>screenshots_before = Some (ScreenshotEvent \<lparr>snapshot = Some img, dataUri = None\<rparr>),
         screenshots_after = None\<rparr>\<rparr>"

definition demo_shift_result :: TraceResult where
  "demo_shift_result =
     \<lparr>parsedTrace =
        \<lparr>pt_insights = None,
         pt_clusters =
           [Cluster [demo_shift 1000 ''AAA''],
            Cluster [demo_shift 1234 ''BBB'', demo_shift 1234 ''CCC'']],
         pt_label = ''trace''\<rparr>,
      insights = None\<rparr>"

text \<open>The tree \<^verbatim>\<open>{id:1, children:[{id:2},{id:3,children:[{id:4}]}]}\<close>.\<close>

definition demo_tree :: axnode where
  "demo_tree =
     AXNode (Some 1) ''root''
       (Some [AXNode (Some 2) ''a'' None,
              AXNode (Some 3) ''b'' (Some [AXNode (Some 4) ''c'' None])])"

section \<open>Facts about lists\<close>

lemma find_first_index:
  "i < length xs \<Longrightarrow> P (xs ! i) \<Longrightarrow> (\<forall>j<i. \<not> P (xs ! j)) \<Longrightarrow> find P xs = Some (xs ! i)"
proof (induction xs arbitrary: i)
  case Nil
  then show ?case by simp
next
  case (Cons x xs)
  show ?case
  proof (cases i)
    case 0
    with Cons.prems show ?thesis by simp
  next
    case (Suc k)
    with Cons.prems have "\<not> P x" by auto
    moreover have "find P xs = Some (xs ! k)"
      using Cons.prems Suc by (intro Cons.IH) auto
    ultimately show ?thesis using Suc by simp
  qed
qed

lemma find_append_case:
  "find P (xs @ ys) = (case find P xs of None \<Rightarrow> find P ys | Some x \<Rightarrow> Some x)"
  by (induction xs) auto

lemma find_Some_set: "find P xs = Some x \<Longrightarrow> P x \<and> x \<in> set xs"
  by (induction xs) (auto split: if_splits)

lemma upto_first_Nil: "upto_first P [] = []"
  by (simp add: upto_first_def)

lemma upto_first_Cons:
  "upto_first P (x # xs) = (if P x then [x] else x # upto_first P xs)"
  by (simp add: upto_first_def)

lemma upto_first_no_match: "find P xs = None \<Longrightarrow> upto_first P xs = xs"
  by (induction xs) (auto simp: upto_first_Cons upto_first_Nil split: if_splits)

lemma upto_first_append:
  "upto_first P (xs @ ys) =
     (case find P xs of None \<Rightarrow> xs @ upto_first P ys | Some x \<Rightarrow> upto_first P xs)"
  by (induction xs) (auto simp: upto_first_Cons upto_first_Nil split: option.splits)

lemma upto_first_prefix: "prefix (upto_first P xs) xs"
  by (induction xs) (auto simp: upto_first_Cons upto_first_Nil)

section \<open>The state a step leaves\<close>

lemma appendResponseLine_fields:
  "isRunningPerformanceTrace (appendResponseLine l w) = isRunningPerformanceTrace w"
  "recordedTraces (appendResponseLine l w) = recordedTraces w"
  "selectedPage (appendResponseLine l w) = selectedPage w"
  "engine (appendResponseLine l w) = engine w"
  "issued (appendResponseLine l w) = issued w"
  "engineCalls (appendResponseLine l w) = engineCalls w"
  "responseLines (appendResponseLine l w) = responseLines w @ [l]"
  "logged (appendResponseLine l w) = logged w"
  by (simp_all add: appendResponseLine_def)

lemma issued_simple:
  "issued (logger l w) = issued w"
  "issued (storeTraceRecording r w) = issued w"
  "issued (setIsRunningPerformanceTrace b w) = issued w"
  "issued (resetProcessor env w) = issued w"
  by (simp_all add: logger_def storeTraceRecording_def setIsRunningPerformanceTrace_def
        resetProcessor_def)

lemma issued_parse_try: "issued (snd (parse_try env s w)) = issued w"
  by (simp add: parse_try_def engineParse_def engineParsedTrace_def
        split: sum.splits prod.splits option.splits)

lemma issued_parseRawTraceBuffer: "issued (snd (parseRawTraceBuffer env b w)) = issued w"
proof (cases b)
  case None
  then show ?thesis by (simp add: parseRawTraceBuffer_def issued_simple)
next
  case (Some bs)
  obtain r w1 where p: "parse_try env (text_decode env bs) (resetProcessor env w) = (r, w1)"
    by (cases "parse_try env (text_decode env bs) (resetProcessor env w)")
  have "issued w1 = issued w"
    using issued_parse_try[of env "text_decode env bs" "resetProcessor env w"] p
    by (simp add: issued_simple)
  then show ?thesis using Some p
    by (cases r) (simp_all add: parseRawTraceBuffer_def Let_def issued_simple)
qed

lemma issued_save_step: "issued (snd (save_step env fp b w)) = issued w"
  by (simp add: save_step_def appendResponseLine_fields split: option.splits sum.splits)

lemma issued_tracingStop: "issued (snd (tracingStop env w)) = issued w @ [TracingStop]"
  by (simp add: tracingStop_def split: prod.splits)

lemma issued_goto: "issued (snd (goto env url wu w)) = issued w @ [Goto url wu]"
  by (simp add: goto_def split: prod.splits)

lemma issued_tracingStart:
  "issued (snd (tracingStart env cats w)) = issued w @ [TracingStart cats]"
  by (simp add: tracingStart_def split: prod.splits)

lemma issued_stop_try: "issued (snd (stop_try env fp w)) = issued w @ [TracingStop]"
proof -
  obtain r w1 where t: "tracingStop env w = (r, w1)"
    by (cases "tracingStop env w")
  have i1: "issued w1 = issued w @ [TracingStop]"
    using issued_tracingStop[of env w] t by simp
  show ?thesis
  proof (cases r)
    case (Inl e)
    then show ?thesis using t i1 by (simp add: stop_try_def)
  next
    case (Inr buf)
    obtain s w2 where sv: "save_step env fp buf w1 = (s, w2)"
      by (cases "save_step env fp buf w1")
    have i2: "issued w2 = issued w1"
      using issued_save_step[of env fp buf w1] sv by simp
    show ?thesis
    proof (cases s)
      case (Some e)
      then show ?thesis using t Inr sv i1 i2 by (simp add: stop_try_def)
    next
      case None
      obtain res w3 where pr: "parseRawTraceBuffer env buf w2 = (res, w3)"
        by (cases "parseRawTraceBuffer env buf w2")
      have i3: "issued w3 = issued w2"
        using issued_parseRawTraceBuffer[of env buf w2] pr by simp
      show ?thesis using t Inr sv None pr i1 i2 i3
        by (cases res)
           (simp_all add: stop_try_def Let_def appendResponseLine_fields issued_simple
              split: sum.splits)
    qed
  qed
qed

lemma issued_stopTracingAndAppendOutput:
  "issued (stopTracingAndAppendOutput env fp w) = issued w @ [TracingStop]"
proof -
  obtain r w1 where t: "stop_try env fp w = (r, w1)"
    by (cases "stop_try env fp w")
  have "issued w1 = issued w @ [TracingStop]"
    using issued_stop_try[of env fp w] t by simp
  then show ?thesis using t
    by (cases r)
       (simp_all add: stopTracingAndAppendOutput_def stop_catch_def issued_simple
          appendResponseLine_fields)
qed

lemma running_stopTracingAndAppendOutput:
  "isRunningPerformanceTrace (stopTracingAndAppendOutput env fp w) = False"
  by (simp add: stopTracingAndAppendOutput_def setIsRunningPerformanceTrace_def)

text \<open>The stop handler leaves no recording active either: it does nothing when idle.\<close>

lemma running_stopTrace: "isRunningPerformanceTrace (stopTrace env fp w) = False"
  by (simp add: stopTrace_def running_stopTracingAndAppendOutput)

text \<open>
  A start that passes the guard sends at least one command to the browser, and the first
  one is the navigation to the blank page or the start of the tracing.
\<close>

lemma startTrace_accepted_issues:
  assumes "\<not> isRunningPerformanceTrace w"
  shows "\<exists>cs. issued (snd (startTrace env req w)) = issued w @ first_command req # cs"
proof -
  let ?w1 = "setIsRunningPerformanceTrace True w"
  let ?url = "page_url env (selectedPage ?w1)"
  let ?tail = "\<lambda>w4. if autoStop req then stopTracingAndAppendOutput env (filePath req) w4
       else appendResponseLine
              ''The performance trace is being recorded. Use performance_stop_trace to stop it.''
              w4"
  have tail: "issued (?tail w4) = issued w4 @ (if autoStop req then [TracingStop] else [])" for w4
    by (simp add: issued_stopTracingAndAppendOutput appendResponseLine_fields)
  show ?thesis
  proof (cases "reload req")
    case False
    obtain r3 w3 where g3: "tracingStart env categories ?w1 = (r3, w3)"
      by (cases "tracingStart env categories ?w1")
    have i3: "issued w3 = issued w @ [TracingStart categories]"
      using g3 issued_tracingStart[of env categories ?w1] by (simp add: issued_simple)
    have "snd (startTrace env req w) = (case r3 of Some e \<Rightarrow> w3 | None \<Rightarrow> ?tail w3)"
      using assms False g3 by (simp add: startTrace_def Let_def split: option.splits)
    then show ?thesis using i3 tail[of w3] False
      by (cases r3) (simp_all add: first_command_def)
  next
    case True
    obtain r2 w2 where g2: "goto env ''about:blank'' [''networkidle0''] ?w1 = (r2, w2)"
      by (cases "goto env ''about:blank'' [''networkidle0''] ?w1")
    have i2: "issued w2 = issued w @ [Goto ''about:blank'' [''networkidle0'']]"
      using g2 issued_goto[of env "''about:blank''" "[''networkidle0'']" ?w1]
      by (simp add: issued_simple)
    obtain r3 w3 where g3: "tracingStart env categories w2 = (r3, w3)"
      by (cases "tracingStart env categories w2")
    have i3: "issued w3 = issued w2 @ [TracingStart categories]"
      using g3 issued_tracingStart[of env categories w2] by simp
    obtain r4 w4 where g4: "goto env ?url [''load''] w3 = (r4, w4)"
      by (cases "goto env ?url [''load''] w3")
    have i4: "issued w4 = issued w3 @ [Goto ?url [''load'']]"
      using g4 issued_goto[of env ?url "[''load'']" w3] by simp
    have "snd (startTrace env req w) =
        (case r2 of Some e \<Rightarrow> w2
         | None \<Rightarrow> (case r3 of Some e \<Rightarrow> w3
            | None \<Rightarrow> (case r4 of Some e \<Rightarrow> w4 | None \<Rightarrow> ?tail w4)))"
      using assms True g2 g3 g4 by (simp add: startTrace_def Let_def split: option.splits)
    then show ?thesis using i2 i3 i4 tail[of w4] True
      by (cases r2; cases r3; cases r4) (simp_all add: first_command_def)
  qed
qed

section \<open>The recording lifecycle\<close>

text \<open>
  Claim C1. While a recording is active, the start handler is rejected: it returns
  normally, appends the one line that tells the user a trace is already running, and
  changes nothing else. The recording flag stays set, the history of recordings and the
  page are as before, and no command (tracing or other) is sent to the browser and no
  call is made on the engine.
\<close>

theorem startTrace_rejected_while_recording:
  assumes "isRunningPerformanceTrace w"
  shows "fst (startTrace env req w) = None
    \<and> snd (startTrace env req w) =
        w\<lparr>responseLines := responseLines w @
          [''Error: a performance trace is already running. Use performance_stop_trace to stop it. Only one trace can be running at any given time.'']\<rparr>
    \<and> isRunningPerformanceTrace (snd (startTrace env req w))
    \<and> recordedTraces (snd (startTrace env req w)) = recordedTraces w
    \<and> selectedPage (snd (startTrace env req w)) = selectedPage w
    \<and> issued (snd (startTrace env req w)) = issued w
    \<and> engineCalls (snd (startTrace env req w)) = engineCalls w"
  using assms by (simp add: startTrace_def appendResponseLine_def)

theorem startTrace_rejected_while_recording_witness:
  "isRunningPerformanceTrace (demo_world True)
   \<and> startTrace demo_env demo_request (demo_world True) =
      (None, (demo_world True)\<lparr>responseLines :=
          [''Error: a performance trace is already running. Use performance_stop_trace to stop it. Only one trace can be running at any given time.'']\<rparr>)
   \<and> issued (snd (startTrace demo_env demo_request (demo_world True))) = []"
proof -
  have h: "isRunningPerformanceTrace (demo_world True)"
    by (simp add: demo_world_def)
  have r: "responseLines (demo_world True) = []" "issued (demo_world True) = []"
    by (simp_all add: demo_world_def)
  show ?thesis
    using startTrace_rejected_while_recording[OF h, of demo_env demo_request] h r
    by (simp add: prod_eq_iff)
qed

text \<open>
  Claim C2. Whatever the collaborators do in the stop path (the buffer retrieval, the
  compression, the file save, the engine or the summary formatter returning, returning
  an error value or throwing), the recording flag is clear when
  \<^verbatim>\<open>stopTracingAndAppendOutput\<close> completes. A start handler called in the state it
  leaves therefore passes its guard: it sends its first command to the browser.
\<close>

theorem stop_always_clears_recording_flag:
  "isRunningPerformanceTrace (stopTracingAndAppendOutput env fp w) = False
   \<and> (\<exists>cs. issued (snd (startTrace env' req (stopTracingAndAppendOutput env fp w))) =
             issued (stopTracingAndAppendOutput env fp w) @ first_command req # cs)"
  using startTrace_accepted_issues[of "stopTracingAndAppendOutput env fp w" env' req]
  by (simp add: running_stopTracingAndAppendOutput)

theorem stop_always_clears_recording_flag_witness:
  "isRunningPerformanceTrace
     (stopTracingAndAppendOutput demo_env_stop_fails None (demo_world True)) = False
   \<and> responseLines (stopTracingAndAppendOutput demo_env_stop_fails None (demo_world True)) =
      [''An error occurred generating the response for this trace:'', ''Target closed'']"
proof -
  have r: "responseLines (stopTracingAndAppendOutput demo_env_stop_fails None (demo_world True)) =
      [''An error occurred generating the response for this trace:'', ''Target closed'']"
    by code_simp
  show ?thesis
    using stop_always_clears_recording_flag[of demo_env_stop_fails None "demo_world True"
        demo_env demo_request] r
    by simp
qed

section \<open>Parsing a raw trace buffer: input errors and wire shapes\<close>

text \<open>
  Claim C3, as the code has it. With no buffer the result is the error
  \<^verbatim>\<open>No buffer was provided.\<close>; with a buffer that decodes to the empty string it is the error
  \<^verbatim>\<open>Decoding the trace buffer returned an empty string.\<close> In both cases the engine is reset
  once, which is the first statement of the function, and nothing else is done to it: no
  event list is fed to it and no parsed trace is asked of it.
\<close>

theorem parseRawTraceBuffer_input_errors:
  "parseRawTraceBuffer env None w = (Failure ''No buffer was provided.'', resetProcessor env w)
   \<and> (text_decode env b = [] \<longrightarrow>
        parseRawTraceBuffer env (Some b) w =
          (Failure ''Decoding the trace buffer returned an empty string.'', resetProcessor env w))
   \<and> engine (resetProcessor env w) = engine_resetProcessor env (engine w)
   \<and> engineCalls (resetProcessor env w) = engineCalls w @ [ResetProcessor]"
  by (simp add: parseRawTraceBuffer_def resetProcessor_def)

theorem parseRawTraceBuffer_input_errors_witness:
  "text_decode demo_env [] = []
   \<and> fst (parseRawTraceBuffer demo_env (Some []) (demo_world False)) =
        Failure ''Decoding the trace buffer returned an empty string.''
   \<and> engineCalls (snd (parseRawTraceBuffer demo_env (Some []) (demo_world False))) =
        [ResetProcessor]"
proof -
  have h: "text_decode demo_env [] = []"
    by (simp add: demo_env_def)
  have c: "engineCalls (demo_world False) = []"
    by (simp add: demo_world_def)
  show ?thesis
    using parseRawTraceBuffer_input_errors[of demo_env "demo_world False" "[]"] h c
    by simp
qed

text \<open>
  Claim C3 as stated fails: with no buffer the error value is returned, yet the engine has
  been called (its processor was reset), so the calls made on the engine are not what they
  were before.
\<close>

theorem parseRawTraceBuffer_absent_buffer_resets_engine:
  "\<not> (fst (parseRawTraceBuffer demo_env None (demo_world False)) =
          Failure ''No buffer was provided.''
      \<and> engineCalls (snd (parseRawTraceBuffer demo_env None (demo_world False))) =
          engineCalls (demo_world False))"
  by (simp add: parseRawTraceBuffer_def resetProcessor_def demo_world_def)

text \<open>
  Claim C4. A buffer whose text parses to the bare array \<open>L\<close> and a buffer whose text
  parses to the object \<^verbatim>\<open>{"traceEvents": L}\<close> are treated alike: from the same state, the
  two calls return the same result and leave the same state, and in both the engine is
  reset and then fed exactly \<open>L\<close>.
\<close>

theorem parseRawTraceBuffer_both_wire_shapes:
  assumes "text_decode env b1 \<noteq> []"
    and "json_parse env (text_decode env b1) = Inr (JArr L)"
    and "text_decode env b2 \<noteq> []"
    and "json_parse env (text_decode env b2) = Inr (JObj [(''traceEvents'', JArr L)])"
  shows "parseRawTraceBuffer env (Some b1) w = parseRawTraceBuffer env (Some b2) w
    \<and> take 2 (drop (length (engineCalls w))
                 (engineCalls (snd (parseRawTraceBuffer env (Some b1) w))))
        = [ResetProcessor, Parse (JArr L)]
    \<and> take 2 (drop (length (engineCalls w))
                 (engineCalls (snd (parseRawTraceBuffer env (Some b2) w))))
        = [ResetProcessor, Parse (JArr L)]"
proof -
  have p: "parse_try env (text_decode env b1) w0 = parse_try env (text_decode env b2) w0" for w0
    using assms by (simp add: parse_try_def)
  have eq: "parseRawTraceBuffer env (Some b1) w = parseRawTraceBuffer env (Some b2) w"
    using assms p by (simp add: parseRawTraceBuffer_def Let_def)
  have c: "take 2 (drop (length (engineCalls w))
             (engineCalls (snd (parse_try env (text_decode env b1) (resetProcessor env w)))))
        = [ResetProcessor, Parse (JArr L)]"
    using assms
    by (simp add: parse_try_def engineParse_def engineParsedTrace_def resetProcessor_def
          split: prod.splits option.splits sum.splits)
  have "engineCalls (snd (parseRawTraceBuffer env (Some b1) w)) =
        engineCalls (snd (parse_try env (text_decode env b1) (resetProcessor env w)))"
    using assms
    by (simp add: parseRawTraceBuffer_def Let_def logger_def split: prod.splits sum.splits)
  then show ?thesis using eq c by simp
qed

theorem parseRawTraceBuffer_both_wire_shapes_witness:
  "parseRawTraceBuffer demo_env (Some [0x5B, 0x5D]) (demo_world False) =
     parseRawTraceBuffer demo_env (Some demo_object_bytes) (demo_world False)
   \<and> engineCalls (snd (parseRawTraceBuffer demo_env (Some demo_object_bytes) (demo_world False))) =
       [ResetProcessor, Parse (JArr []), ParsedTrace]"
proof -
  have h1: "text_decode demo_env [0x5B, 0x5D] \<noteq> []"
    by code_simp
  have h2: "json_parse demo_env (text_decode demo_env [0x5B, 0x5D]) = Inr (JArr [])"
    by code_simp
  have h3: "text_decode demo_env demo_object_bytes \<noteq> []"
    by code_simp
  have h4: "json_parse demo_env (text_decode demo_env demo_object_bytes) =
      Inr (JObj [(''traceEvents'', JArr [])])"
    by code_simp
  have c: "engineCalls (snd (parseRawTraceBuffer demo_env (Some demo_object_bytes)
                               (demo_world False))) =
       [ResetProcessor, Parse (JArr []), ParsedTrace]"
    by code_simp
  show ?thesis
    using parseRawTraceBuffer_both_wire_shapes[OF h1 h2 h3 h4, of "demo_world False"] c
    by simp
qed

section \<open>The LCP breakdown\<close>

lemma push_phase_spec:
  "push_phase ''Render Delay'' (renderDelay s)
     (push_phase ''Load Duration'' (loadDuration s)
       (push_phase ''Load Delay'' (loadDelay s)
         (push_phase ''TTFB'' (ttfb s) []))) = spec_phases s"
  by (cases "ttfb s"; cases "loadDelay s"; cases "loadDuration s"; cases "renderDelay s")
     (simp_all add: push_phase_def spec_phases_def toMs_def)

text \<open>
  Claim C5. When the insight set has an LCP breakdown, \<^verbatim>\<open>getLCPBreakdownData\<close> returns a
  breakdown whose phases are those of the subparts that are present, each with its range
  in microseconds divided by 1000, in the order TTFB, Load Delay, Load Duration, Render
  Delay; a subpart that is absent gives no phase. With the subparts
  \<^verbatim>\<open>{ttfb: {range: 50000}, loadDelay: {range: 20000}}\<close> the phases are TTFB of 50 and Load
  Delay of 20.
\<close>

theorem getLCPBreakdownData_phases:
  assumes "insights result = Some m"
    and "map_get m insightSetId = Some insightSet"
    and "model_LCPBreakdown insightSet = Some lcpInsight"
  shows "\<exists>d. getLCPBreakdownData result insightSetId = Some d \<and>
             phases d = (case subparts lcpInsight of None \<Rightarrow> [] | Some s \<Rightarrow> spec_phases s)"
  using assms by (simp add: getLCPBreakdownData_def push_phase_spec split: option.splits)

theorem getLCPBreakdownData_phases_witness:
  "\<exists>d. getLCPBreakdownData (demo_result (Some [(''NAVIGATION_0'', demo_set (Some 120) (Some 7))]))
          ''NAVIGATION_0'' = Some d \<and>
       phases d =
         [\<lparr>name = ''TTFB'', durationMs = 50\<rparr>, \<lparr>name = ''Load Delay'', durationMs = 20\<rparr>]"
proof -
  let ?m = "[(''NAVIGATION_0'', demo_set (Some 120) (Some 7))]"
  have h1: "insights (demo_result (Some ?m)) = Some ?m"
    by (simp add: demo_result_def)
  have h2: "map_get ?m ''NAVIGATION_0'' = Some (demo_set (Some 120) (Some 7))"
    by (simp add: map_get_def)
  have h3: "model_LCPBreakdown (demo_set (Some 120) (Some 7)) =
      Some (demo_insight (Some 120) (Some 7))"
    by (simp add: model_LCPBreakdown_def demo_set_def)
  have h4: "spec_phases demo_subparts =
      [\<lparr>name = ''TTFB'', durationMs = 50\<rparr>, \<lparr>name = ''Load Delay'', durationMs = 20\<rparr>]"
    by (simp add: spec_phases_def demo_subparts_def)
  show ?thesis
    using getLCPBreakdownData_phases[OF h1 h2 h3] h4 by (simp add: demo_insight_def)
qed

section \<open>Selecting the insight set for display\<close>

lemma scanInsightSetIds_find:
  "n \<le> length ids \<Longrightarrow>
     scanInsightSetIds r ids n = find (has_positive_lcp r) (rev (take n ids))"
proof (induction n)
  case 0
  then show ?case by simp
next
  case (Suc n)
  then have "take (Suc n) ids = take n ids @ [ids ! n]"
    by (simp add: take_Suc_conv_app_nth)
  then show ?case using Suc
    by (simp add: Let_def has_positive_lcp_def split: option.splits)
qed

text \<open>The loop scans the identifiers from the last to the first and stops at the first
  set whose breakdown has a positive LCP time.\<close>

lemma finalInsightSetId_reverse_scan:
  "finalInsightSetId r =
     (case insights r of
        None \<Rightarrow> None
      | Some m \<Rightarrow> find (has_positive_lcp r) (rev (map fst m)))"
  by (simp add: finalInsightSetId_def scanInsightSetIds_find split: option.splits)

text \<open>When the identifier the loop stops at is not the empty string, the function returns
  the breakdown of that set; when the loop finds none, it returns null.\<close>

lemma getLCPDataWithScreenshot_selects:
  assumes "finalInsightSetId r = Some sid" and "sid \<noteq> []"
  shows "map_option LCPBreakdownData.truncate (fst (getLCPDataWithScreenshot env r w)) =
           getLCPBreakdownData r sid"
  using assms
  by (auto simp: getLCPDataWithScreenshot_def LCPBreakdownData.truncate_def
        LCPBreakdownData.extend_def split: option.splits prod.splits)

lemma getLCPDataWithScreenshot_none:
  assumes "finalInsightSetId r = None"
  shows "getLCPDataWithScreenshot env r w = (None, w)"
  using assms by (simp add: getLCPDataWithScreenshot_def)

text \<open>
  The guard \<^verbatim>\<open>!finalInsightSetId\<close> that follows the loop is a test for truthiness, so it
  also fires on the empty string. The trace engine names its insight sets after
  navigations and never with the empty string; the statement below is about such
  recordings, and this is the one place where that is used.
\<close>

lemma getLCPDataWithScreenshot_empty_id:
  "finalInsightSetId (demo_result (Some demo_sets_empty_id)) = Some []
   \<and> map_option lcpMs (getLCPBreakdownData (demo_result (Some demo_sets_empty_id)) []) = Some 120
   \<and> getLCPDataWithScreenshot env (demo_result (Some demo_sets_empty_id)) w = (None, w)"
proof -
  have f: "finalInsightSetId (demo_result (Some demo_sets_empty_id)) = Some []"
    by code_simp
  have g: "map_option lcpMs (getLCPBreakdownData (demo_result (Some demo_sets_empty_id)) []) =
      Some 120"
    by code_simp
  show ?thesis using f g by (simp add: getLCPDataWithScreenshot_def)
qed

lemma finalInsightSetId_ids:
  "finalInsightSetId r = find (has_positive_lcp r) (rev (insight_set_ids r))"
  by (simp add: finalInsightSetId_reverse_scan insight_set_ids_def split: option.splits)

lemma getLCPDataWithScreenshot_payload:
  assumes "finalInsightSetId r = Some sid" and "sid \<noteq> []"
    and "getLCPBreakdownData r sid = Some d"
  shows "\<exists>shot. fst (getLCPDataWithScreenshot env r w) =
           Some (LCPBreakdownData.extend d (LCPDataWithScreenshot.fields shot))"
  using assms
  by (auto simp: getLCPDataWithScreenshot_def split: option.splits prod.splits)

text \<open>
  Claim C6. For a recording whose insight sets have the identifiers the engine gives them
  (none is the empty string), the selection scans the identifiers from the last to the
  first and takes the first set whose LCP breakdown has a strictly positive \<^verbatim>\<open>lcpMs\<close>:
  the function returns that set's breakdown (with the screenshot field added). When no
  set has a positive \<^verbatim>\<open>lcpMs\<close>, and also when the recording has no insights, it returns
  null. Over the sets A with \<^verbatim>\<open>lcpMs\<close> 0 and B with 120, the selection is B.
\<close>

theorem getLCPDataWithScreenshot_selection:
  assumes "[] \<notin> set (insight_set_ids r)"
  shows "finalInsightSetId r = find (has_positive_lcp r) (rev (insight_set_ids r))
    \<and> (\<forall>sid. find (has_positive_lcp r) (rev (insight_set_ids r)) = Some sid \<longrightarrow>
          (\<exists>d shot. getLCPBreakdownData r sid = Some d \<and> 0 < lcpMs d
             \<and> fst (getLCPDataWithScreenshot env r w) =
                 Some (LCPBreakdownData.extend d (LCPDataWithScreenshot.fields shot))))
    \<and> ((\<forall>sid \<in> set (insight_set_ids r). \<not> has_positive_lcp r sid) \<longrightarrow>
          getLCPDataWithScreenshot env r w = (None, w))"
proof (intro conjI allI impI)
  show "finalInsightSetId r = find (has_positive_lcp r) (rev (insight_set_ids r))"
    by (rule finalInsightSetId_ids)
next
  fix sid
  assume f: "find (has_positive_lcp r) (rev (insight_set_ids r)) = Some sid"
  then have sel: "finalInsightSetId r = Some sid"
    by (simp add: finalInsightSetId_ids)
  from f have "has_positive_lcp r sid" and "sid \<in> set (rev (insight_set_ids r))"
    using find_Some_set[of "has_positive_lcp r" "rev (insight_set_ids r)" sid] by simp_all
  then have ne: "sid \<noteq> []" using assms by auto
  from \<open>has_positive_lcp r sid\<close> obtain d
    where d: "getLCPBreakdownData r sid = Some d" and pos: "0 < lcpMs d"
    by (auto simp: has_positive_lcp_def split: option.splits)
  from getLCPDataWithScreenshot_payload[OF sel ne d, of env w] d pos
  show "\<exists>d shot. getLCPBreakdownData r sid = Some d \<and> 0 < lcpMs d
             \<and> fst (getLCPDataWithScreenshot env r w) =
                 Some (LCPBreakdownData.extend d (LCPDataWithScreenshot.fields shot))"
    by blast
next
  assume "\<forall>sid \<in> set (insight_set_ids r). \<not> has_positive_lcp r sid"
  then have "find (has_positive_lcp r) (rev (insight_set_ids r)) = None"
    by (simp add: find_None_iff)
  then have "finalInsightSetId r = None"
    by (simp add: finalInsightSetId_ids)
  then show "getLCPDataWithScreenshot env r w = (None, w)"
    by (rule getLCPDataWithScreenshot_none)
qed

theorem getLCPDataWithScreenshot_selection_witness:
  "[] \<notin> set (insight_set_ids (demo_result (Some demo_sets)))
   \<and> finalInsightSetId (demo_result (Some demo_sets)) = Some ''B''
   \<and> map_option lcpMs
       (fst (getLCPDataWithScreenshot demo_env (demo_result (Some demo_sets)) (demo_world False))) =
       Some 120
   \<and> getLCPDataWithScreenshot demo_env (demo_result (Some [(''A'', demo_set (Some 0) None)]))
       (demo_world False) = (None, demo_world False)"
proof -
  let ?r = "demo_result (Some demo_sets)"
  let ?q = "demo_result (Some [(''A'', demo_set (Some 0) None)])"
  have h: "[] \<notin> set (insight_set_ids ?r)"
    by (simp add: insight_set_ids_def demo_result_def demo_sets_def)
  have h0: "[] \<notin> set (insight_set_ids ?q)"
    by (simp add: insight_set_ids_def demo_result_def)
  have f: "find (has_positive_lcp ?r) (rev (insight_set_ids ?r)) = Some ''B''"
    by code_simp
  have g: "map_option lcpMs (getLCPBreakdownData ?r ''B'') = Some 120"
    by code_simp
  have n: "\<forall>sid \<in> set (insight_set_ids ?q). \<not> has_positive_lcp ?q sid"
    by code_simp
  note t = getLCPDataWithScreenshot_selection[OF h, of demo_env "demo_world False"]
  note t0 = getLCPDataWithScreenshot_selection[OF h0, of demo_env "demo_world False"]
  from t f have sel: "finalInsightSetId ?r = Some ''B''"
    by simp
  from t f obtain d shot where d: "getLCPBreakdownData ?r ''B'' = Some d"
    and p: "fst (getLCPDataWithScreenshot demo_env ?r (demo_world False)) =
              Some (LCPBreakdownData.extend d (LCPDataWithScreenshot.fields shot))"
    by blast
  have "map_option lcpMs (fst (getLCPDataWithScreenshot demo_env ?r (demo_world False))) = Some 120"
    using d p g by (simp add: LCPBreakdownData.extend_def)
  moreover have "getLCPDataWithScreenshot demo_env ?q (demo_world False) = (None, demo_world False)"
    using t0 n by blast
  ultimately show ?thesis using h sel by simp
qed

text \<open>
  Claim C10. When the breakdown of the selected insight set has the backend node
  identifier 0, the screenshot step is skipped: the payload is the breakdown with no
  screenshot, its \<^verbatim>\<open>backendNodeId\<close> is still 0, and the state is untouched, so no
  accessibility snapshot was requested and no screenshot was taken.
\<close>

theorem getLCPDataWithScreenshot_zero_node_id:
  assumes "finalInsightSetId r = Some sid" and "sid \<noteq> []"
    and "getLCPBreakdownData r sid = Some d"
    and "backendNodeId d = Some 0"
  shows "getLCPDataWithScreenshot env r w =
           (Some (LCPBreakdownData.extend d (LCPDataWithScreenshot.fields None)), w)
    \<and> (\<forall>p. fst (getLCPDataWithScreenshot env r w) = Some p \<longrightarrow>
           screenshot p = None \<and> backendNodeId p = Some 0)
    \<and> issued (snd (getLCPDataWithScreenshot env r w)) = issued w"
  using assms
  by (simp add: getLCPDataWithScreenshot_def LCPBreakdownData.extend_def
        LCPDataWithScreenshot.fields_def)

theorem getLCPDataWithScreenshot_zero_node_id_witness:
  "map_option screenshot
     (fst (getLCPDataWithScreenshot demo_env (demo_result (Some demo_sets_node_zero))
             (demo_world False))) = Some None
   \<and> map_option backendNodeId
     (fst (getLCPDataWithScreenshot demo_env (demo_result (Some demo_sets_node_zero))
             (demo_world False))) = Some (Some 0)
   \<and> issued
     (snd (getLCPDataWithScreenshot demo_env (demo_result (Some demo_sets_node_zero))
             (demo_world False))) = []"
proof -
  let ?r = "demo_result (Some demo_sets_node_zero)"
  obtain d where d: "getLCPBreakdownData ?r ''NAVIGATION_0'' = Some d"
    and b: "backendNodeId d = Some 0"
    by (simp add: getLCPBreakdownData_def demo_result_def map_get_def model_LCPBreakdown_def
          demo_set_def demo_insight_def demo_sets_node_zero_def)
  have f: "finalInsightSetId ?r = Some ''NAVIGATION_0''"
    by code_simp
  have n: "''NAVIGATION_0'' \<noteq> []"
    by simp
  have i: "issued (demo_world False) = []"
    by (simp add: demo_world_def)
  show ?thesis
    using getLCPDataWithScreenshot_zero_node_id[OF f n d b, of demo_env "demo_world False"] i
    by simp
qed

section \<open>Looking up an insight\<close>

lemma model_has_own: "map_of (model s) nm = Some v \<Longrightarrow> model_has s nm"
  unfolding model_has_def by (force dest: map_of_SomeD)

lemma matchingInsight_of_own:
  "map_of (model s) nm = Some v \<Longrightarrow> matchingInsight_of s nm = map_option OwnInsight v"
  by (simp add: matchingInsight_of_def model_has_own model_read_def)

lemma matchingInsight_of_missing:
  "map_of (model s) nm = None \<Longrightarrow> nm \<notin> set object_prototype_keys \<Longrightarrow>
     matchingInsight_of s nm = None"
  by (simp add: matchingInsight_of_def model_read_def)

lemma matchingInsight_of_inherited:
  "map_of (model s) nm = None \<Longrightarrow> nm \<in> set object_prototype_keys \<Longrightarrow>
     matchingInsight_of s nm = Some (Inherited nm)"
  by (simp add: matchingInsight_of_def model_read_def model_has_def)

text \<open>
  What the lookup does for every name that \<^verbatim>\<open>Object.prototype\<close> does not define: the
  three errors and the formatted output, in the order of the four cases.
\<close>

lemma getInsightOutput_cases:
  "(insights r = None \<longrightarrow>
      getInsightOutput env r sid nm =
        Inr (Error ''No Performance insights are available for this trace.''))
   \<and> (insights r = Some m \<and> map_get m sid = None \<longrightarrow>
      getInsightOutput env r sid nm =
        Inr (Error (''No Performance Insights for the given insight set id. Only use ids given in the ''
                     @ [CHR 0x22] @ ''Available insight sets'' @ [CHR 0x22] @ '' list.'')))
   \<and> (insights r = Some m \<and> map_get m sid = Some s \<and> nm \<notin> set object_prototype_keys
        \<and> (map_of (model s) nm = None \<or> map_of (model s) nm = Some None) \<longrightarrow>
      getInsightOutput env r sid nm =
        Inr (Error (''No Insight with the name '' @ nm
               @ '' found. Double check the name you provided is accurate and try again.'')))
   \<and> (insights r = Some m \<and> map_get m sid = Some s \<and> map_of (model s) nm = Some (Some i) \<longrightarrow>
      getInsightOutput env r sid nm =
        (case formatInsight env (parsedTrace r) (OwnInsight i) of
           Inl e \<Rightarrow> Inl e
         | Inr out \<Rightarrow> Inr (Output out)))"
  by (auto simp: getInsightOutput_def matchingInsight_of_own matchingInsight_of_missing)

text \<open>
  Claim C7, at an input where the code departs from it. The name \<^verbatim>\<open>constructor\<close> is not
  a key of the insight set's model, but the operator \<^verbatim>\<open>in\<close> finds it on the prototype and
  the value read there is truthy. The lookup hands that value to the formatter and
  returns what the formatter gives (its output, or what it throws), never the error that
  names the requested insight.
\<close>

theorem getInsightOutput_inherited_name:
  "''constructor'' \<notin> set (map fst (model (demo_set (Some 120) None)))
   \<and> getInsightOutput env (demo_result (Some [(''NAVIGATION_0'', demo_set (Some 120) None)]))
        ''NAVIGATION_0'' ''constructor'' =
      (case formatInsight env
              (parsedTrace (demo_result (Some [(''NAVIGATION_0'', demo_set (Some 120) None)])))
              (Inherited ''constructor'') of
         Inl e \<Rightarrow> Inl e
       | Inr out \<Rightarrow> Inr (Output out))
   \<and> (\<forall>msg. getInsightOutput env
               (demo_result (Some [(''NAVIGATION_0'', demo_set (Some 120) None)]))
               ''NAVIGATION_0'' ''constructor'' \<noteq> Inr (Error msg))"
proof -
  let ?r = "demo_result (Some [(''NAVIGATION_0'', demo_set (Some 120) None)])"
  have k: "''constructor'' \<notin> set (map fst (model (demo_set (Some 120) None)))"
    by (simp add: demo_set_def)
  have g: "matchingInsight_of (demo_set (Some 120) None) ''constructor'' =
      Some (Inherited ''constructor'')"
    by (rule matchingInsight_of_inherited)
       (simp_all add: demo_set_def object_prototype_keys_def)
  have e: "getInsightOutput env ?r ''NAVIGATION_0'' ''constructor'' =
      (case formatInsight env (parsedTrace ?r) (Inherited ''constructor'') of
         Inl e \<Rightarrow> Inl e
       | Inr out \<Rightarrow> Inr (Output out))"
    using g by (simp add: getInsightOutput_def demo_result_def map_get_def)
  show ?thesis using k e by (simp split: sum.splits)
qed

section \<open>Layout shifts\<close>

lemma push_events_append: "push_events es acc = acc @ map layoutShiftOf es"
  by (induction es arbitrary: acc) auto

lemma push_clusters_concat:
  "push_clusters cs acc = acc @ concat (map (\<lambda>c. map layoutShiftOf (events c)) cs)"
  by (induction cs arbitrary: acc) (auto simp: push_events_append)

text \<open>
  Claim C8. \<^verbatim>\<open>getLayoutShifts\<close> lists the events cluster by cluster and, within a cluster,
  event by event. \<^verbatim>\<open>getLayoutShiftImages\<close> returns the images of the first entry of that
  list whose \<^verbatim>\<open>ts\<close> equals the timestamp, and null when no entry has that \<^verbatim>\<open>ts\<close>.
\<close>

theorem getLayoutShiftImages_first_match:
  "getLayoutShifts result =
     concat (map (\<lambda>c. map layoutShiftOf (events c)) (pt_clusters (parsedTrace result)))
   \<and> (\<forall>i. i < length (getLayoutShifts result) \<and> ts (getLayoutShifts result ! i) = timestamp
          \<and> (\<forall>j<i. ts (getLayoutShifts result ! j) \<noteq> timestamp)
        \<longrightarrow> getLayoutShiftImages result timestamp =
              Some (images (getLayoutShifts result ! i)))
   \<and> ((\<forall>s \<in> set (getLayoutShifts result). ts s \<noteq> timestamp)
        \<longrightarrow> getLayoutShiftImages result timestamp = None)"
proof (intro conjI allI impI)
  show "getLayoutShifts result =
     concat (map (\<lambda>c. map layoutShiftOf (events c)) (pt_clusters (parsedTrace result)))"
    by (simp add: getLayoutShifts_def push_clusters_concat)
next
  fix i
  assume "i < length (getLayoutShifts result) \<and> ts (getLayoutShifts result ! i) = timestamp
          \<and> (\<forall>j<i. ts (getLayoutShifts result ! j) \<noteq> timestamp)"
  then have "find (\<lambda>s. ts s = timestamp) (getLayoutShifts result) =
      Some (getLayoutShifts result ! i)"
    by (intro find_first_index) auto
  then show "getLayoutShiftImages result timestamp = Some (images (getLayoutShifts result ! i))"
    by (simp add: getLayoutShiftImages_def)
next
  assume "\<forall>s \<in> set (getLayoutShifts result). ts s \<noteq> timestamp"
  then have "find (\<lambda>s. ts s = timestamp) (getLayoutShifts result) = None"
    by (simp add: find_None_iff)
  then show "getLayoutShiftImages result timestamp = None"
    by (simp add: getLayoutShiftImages_def)
qed

theorem getLayoutShiftImages_first_match_witness:
  "getLayoutShiftImages demo_shift_result 1234 = Some \<lparr>before = Some ''BBB'', after = None\<rparr>
   \<and> getLayoutShiftImages demo_shift_result 99 = None"
proof -
  let ?img = "\<lambda>s. \<lparr>before = Some s, after = None\<rparr>"
  have L: "getLayoutShifts demo_shift_result =
      [\<lparr>ts = 1000, score = 1 / 10, images = ?img ''AAA''\<rparr>,
       \<lparr>ts = 1234, score = 1 / 10, images = ?img ''BBB''\<rparr>,
       \<lparr>ts = 1234, score = 1 / 10, images = ?img ''CCC''\<rparr>]"
    by code_simp
  have a: "\<forall>i. i < length (getLayoutShifts demo_shift_result)
          \<and> ts (getLayoutShifts demo_shift_result ! i) = 1234
          \<and> (\<forall>j<i. ts (getLayoutShifts demo_shift_result ! j) \<noteq> 1234)
        \<longrightarrow> getLayoutShiftImages demo_shift_result 1234 =
              Some (images (getLayoutShifts demo_shift_result ! i))"
    using getLayoutShiftImages_first_match[of demo_shift_result 1234] by blast
  have "getLayoutShiftImages demo_shift_result 1234 = Some (?img ''BBB'')"
    using a[rule_format, of 1] by (simp add: L less_Suc_eq)
  moreover have "getLayoutShiftImages demo_shift_result 99 = None"
    using getLayoutShiftImages_first_match[of demo_shift_result 99] by (simp add: L)
  ultimately show ?thesis by simp
qed

section \<open>Searching the accessibility tree\<close>

lemma findAXNode_preorder:
  "findAXNode n t = find (\<lambda>x. ax_backendNodeId x = Some t) (preorder n)"
  "findAXNode_children ns t = find (\<lambda>x. ax_backendNodeId x = Some t) (preorder_children ns)"
  by (induction n t and ns t rule: findAXNode_findAXNode_children.induct)
     (auto simp: find_append_case split: option.splits)

lemma findAXNode_visit_fst:
  "fst (findAXNode_visit n t) = findAXNode n t"
  "fst (findAXNode_children_visit ns t) = findAXNode_children ns t"
  by (induction n t and ns t rule: findAXNode_findAXNode_children.induct)
     (auto split: option.splits prod.splits)

lemma findAXNode_visit_snd:
  "snd (findAXNode_visit n t) = upto_first (\<lambda>x. ax_backendNodeId x = Some t) (preorder n)"
  "snd (findAXNode_children_visit ns t) =
     upto_first (\<lambda>x. ax_backendNodeId x = Some t) (preorder_children ns)"
proof (induction n t and ns t rule: findAXNode_visit_findAXNode_children_visit.induct)
  case (1 i n ch target)
  then show ?case
    by (auto simp: upto_first_Cons upto_first_Nil split: option.splits prod.splits)
next
  case (2 target)
  then show ?case by (simp add: upto_first_Nil)
next
  case (3 child rest target)
  obtain r vs where cv: "findAXNode_visit child target = (r, vs)"
    by (cases "findAXNode_visit child target")
  have r: "r = find (\<lambda>x. ax_backendNodeId x = Some target) (preorder child)"
    using findAXNode_visit_fst(1)[of child target] cv findAXNode_preorder(1)[of child target]
    by simp
  have vs: "vs = upto_first (\<lambda>x. ax_backendNodeId x = Some target) (preorder child)"
    using "3.IH"(1) cv by simp
  show ?case
  proof (cases r)
    case None
    obtain r2 ws where rv: "findAXNode_children_visit rest target = (r2, ws)"
      by (cases "findAXNode_children_visit rest target")
    have ws: "ws = upto_first (\<lambda>x. ax_backendNodeId x = Some target) (preorder_children rest)"
      using "3.IH"(2)[OF cv[symmetric] None] rv by simp
    have "find (\<lambda>x. ax_backendNodeId x = Some target) (preorder child) = None"
      using r None by simp
    then show ?thesis using cv rv None vs ws
      by (simp add: upto_first_append upto_first_no_match)
  next
    case (Some a)
    have "find (\<lambda>x. ax_backendNodeId x = Some target) (preorder child) = Some a"
      using r Some by simp
    then show ?thesis using cv Some vs
      by (simp add: upto_first_append)
  qed
qed

text \<open>
  Claim C9. \<^verbatim>\<open>findAXNode\<close> returns the first node, in pre-order, whose backend node
  identifier is the target, and null when the tree has none. The nodes it compares are an
  initial segment of the pre-order listing, ending at the match: it looks at each node at
  most once, and at none after the match.
\<close>

theorem findAXNode_first_in_preorder:
  "findAXNode rootNode target =
     find (\<lambda>n. ax_backendNodeId n = Some target) (preorder rootNode)
   \<and> fst (findAXNode_visit rootNode target) = findAXNode rootNode target
   \<and> snd (findAXNode_visit rootNode target) =
       upto_first (\<lambda>n. ax_backendNodeId n = Some target) (preorder rootNode)
   \<and> prefix (snd (findAXNode_visit rootNode target)) (preorder rootNode)"
  by (simp add: findAXNode_preorder(1) findAXNode_visit_fst(1) findAXNode_visit_snd(1)
        upto_first_prefix)

theorem findAXNode_first_in_preorder_witness:
  "findAXNode demo_tree 4 = Some (AXNode (Some 4) ''c'' None)
   \<and> findAXNode demo_tree 99 = None
   \<and> snd (findAXNode_visit demo_tree 3) =
       [demo_tree, AXNode (Some 2) ''a'' None,
        AXNode (Some 3) ''b'' (Some [AXNode (Some 4) ''c'' None])]"
proof -
  have p: "preorder demo_tree =
      [demo_tree, AXNode (Some 2) ''a'' None,
       AXNode (Some 3) ''b'' (Some [AXNode (Some 4) ''c'' None]),
       AXNode (Some 4) ''c'' None]"
    by (simp add: demo_tree_def)
  have i: "ax_backendNodeId demo_tree = Some 1"
    by (simp add: demo_tree_def)
  show ?thesis
    using findAXNode_first_in_preorder[of demo_tree 4]
      findAXNode_first_in_preorder[of demo_tree 99]
      findAXNode_first_in_preorder[of demo_tree 3]
    by (simp add: p i upto_first_def)
qed

end
